theory Spec2Isabelle
  imports Complex_Main "HOL-Library.Multiset" "HOL-Library.Word"
begin

section \<open>NetKet Metropolis sampler: a shallow embedding\<close>

text \<open>
  The theory embeds \<^verbatim>\<open>netket/sampler/rules/exchange.py\<close> and the sampler engine of
  \<^verbatim>\<open>netket/sampler/metropolis.py\<close>.

  Conventions of the embedding.
  \<^item> A one-dimensional array is a list, a batch of configurations (a two-dimensional
    array of shape \<open>(n_chains, n_sites)\<close>) is a list of rows.
  \<^item> Floating-point numbers are idealised as \<open>real\<close>; the machine's complex output as
    \<open>complex\<close>. Rounding, infinities and not-a-number are outside the model.
  \<^item> Python integers are \<open>int\<close> (unbounded). An integer held by a jax array is a 64-bit
    two's-complement word (jax in the 64-bit mode that netket runs it in): its arithmetic
    wraps around.
  \<^item> Every exception the code raises, or that the array library raises on the code's
    behalf, is a value \<open>Inl e\<close> of the result type \<open>error + 'a\<close>.
\<close>

datatype error =
    ValueError            \<comment> \<open>raised by \<^verbatim>\<open>ExchangeRule\<close>\<close>
  | IndexError            \<comment> \<open>a read outside a numpy array or a Python list\<close>
  | ZeroDivisionError     \<comment> \<open>Python's \<^verbatim>\<open>/\<close> on a zero divisor\<close>
  | NotImplementedError   \<comment> \<open>raised by the base class's \<^verbatim>\<open>transition\<close>\<close>
  | ShapeError            \<comment> \<open>the array library rejects a negative dimension or operands of different shapes\<close>
  | OverflowError         \<comment> \<open>a Python integer too large for a jax integer\<close>

subsection \<open>exchange.py: the cluster table\<close>

text \<open>
  The graph is consumed only through \<^verbatim>\<open>graph.distances()\<close>, a matrix given by its rows.
  A cluster is a pair of site indices, stored as \<^verbatim>\<open>int64\<close>.
\<close>

record 'd graph =
  distances :: "'d list list"

type_synonym cluster = "int \<times> int"

text \<open>
  The inner loop \<^verbatim>\<open>for j in range(i + 1, size)\<close> of \<^verbatim>\<open>compute_clusters\<close>, on row
  \<^verbatim>\<open>distances[i]\<close>; \<open>clusters\<close> is the list being appended to. Reading a column the row
  does not have raises.
\<close>

fun clusters_row ::
  "'d::linorder list \<Rightarrow> 'd \<Rightarrow> nat \<Rightarrow> nat list \<Rightarrow> cluster list \<Rightarrow> error + cluster list" where
  "clusters_row row d_max i [] clusters = Inr clusters"
| "clusters_row row d_max i (j # js) clusters =
     (if j < length row
      then clusters_row row d_max i js
             (if row ! j \<le> d_max then clusters @ [(int i, int j)] else clusters)
      else Inl IndexError)"

text \<open>The outer loop \<^verbatim>\<open>for i in range(size)\<close>.\<close>

fun clusters_rows ::
  "'d::linorder list list \<Rightarrow> 'd \<Rightarrow> nat list \<Rightarrow> cluster list \<Rightarrow> error + cluster list" where
  "clusters_rows dists d_max [] clusters = Inr clusters"
| "clusters_rows dists d_max (i # is) clusters =
     (case clusters_row (dists ! i) d_max i [i + 1 ..< length dists] clusters of
        Inl e \<Rightarrow> Inl e
      | Inr clusters' \<Rightarrow> clusters_rows dists d_max is clusters')"

text \<open>
  \<^verbatim>\<open>compute_clusters(graph, d_max)\<close>: \<open>size\<close> is the number of rows of the matrix. The
  second loop of the source copies the Python list entry by entry into an \<^verbatim>\<open>int64\<close>
  array of shape \<open>(len(clusters), 2)\<close>, which is the same list of pairs here.
\<close>

definition compute_clusters :: "'d::linorder graph \<Rightarrow> 'd \<Rightarrow> error + cluster list" where
  "compute_clusters graph d_max =
     (let dists = distances graph; size = length dists
      in clusters_rows dists d_max [0 ..< size] [])"

record ExchangeRule_ =
  clusters :: "cluster list"

text \<open>
  \<^verbatim>\<open>ExchangeRule(*, clusters=None, graph=None, d_max=1)\<close>: an argument left at \<^verbatim>\<open>None\<close>
  is \<open>None\<close>. The two branches are the source's \<^verbatim>\<open>if\<close> and \<^verbatim>\<open>elif\<close>, in order.
\<close>

definition ExchangeRule ::
  "cluster list option \<Rightarrow> 'd::linorder graph option \<Rightarrow> 'd \<Rightarrow> error + ExchangeRule_" where
  "ExchangeRule clusters_arg graph_arg d_max =
     (if clusters_arg = None \<and> graph_arg \<noteq> None
      then (case compute_clusters (the graph_arg) d_max of
              Inl e \<Rightarrow> Inl e
            | Inr cs \<Rightarrow> Inr \<lparr>clusters = cs\<rparr>)
      else if \<not> (clusters_arg \<noteq> None \<and> graph_arg = None)
      then Inl ValueError
      else Inr \<lparr>clusters = the clusters_arg\<rparr>)"

text \<open>
  The specification's wording of the table: the pairs \<open>(i, j)\<close>, \<open>i < j\<close>, with
  \<open>distance(i, j) \<le> d_max\<close>, enumerated in lexicographic order.
\<close>

definition cluster_pairs_spec :: "'d::linorder list list \<Rightarrow> 'd \<Rightarrow> cluster list" where
  "cluster_pairs_spec dists d_max =
     concat (map (\<lambda>i. map (\<lambda>j. (int i, int j))
                          (filter (\<lambda>j. dists ! i ! j \<le> d_max) [i + 1 ..< length dists]))
                 [0 ..< length dists])"

definition lex_less :: "cluster \<Rightarrow> cluster \<Rightarrow> bool" where
  "lex_less p q = (fst p < fst q \<or> (fst p = fst q \<and> snd p < snd q))"

definition square :: "'d list list \<Rightarrow> bool" where
  "square dists = list_all (\<lambda>row. length row = length dists) dists"

subsection \<open>The array and random-number primitives the code calls\<close>

text \<open>
  \<^verbatim>\<open>jax.random\<close> is a library of pure functions of a key. The embedding takes them as
  parameters, entry by entry: \<open>random_split P key num i\<close> is entry \<open>i\<close> of
  \<^verbatim>\<open>jax.random.split(key, num)\<close>, \<open>random_uniform P key n i\<close> is entry \<open>i\<close> of
  \<^verbatim>\<open>jax.random.uniform(key, shape=(n,))\<close>, and \<open>random_randint P key n minval maxval i\<close>
  is entry \<open>i\<close> of \<^verbatim>\<open>jax.random.randint(key, shape=(n,), minval=minval, maxval=maxval)\<close>.
  Nothing is assumed about the values they return.
\<close>

record 'k prng =
  random_split :: "'k \<Rightarrow> nat \<Rightarrow> nat \<Rightarrow> 'k"
  random_uniform :: "'k \<Rightarrow> nat \<Rightarrow> nat \<Rightarrow> real"
  random_randint :: "'k \<Rightarrow> nat \<Rightarrow> int \<Rightarrow> int \<Rightarrow> nat \<Rightarrow> int"

type_synonym 'c batch = "'c list list"

text \<open>\<^verbatim>\<open>jax.random.uniform(key, shape=(n,))\<close>; a negative dimension is rejected.\<close>

definition uniform :: "'k prng \<Rightarrow> 'k \<Rightarrow> int \<Rightarrow> error + real list" where
  "uniform P key n =
     (if n < 0 then Inl ShapeError
      else Inr (map (random_uniform P key (nat n)) [0 ..< nat n]))"

definition randint :: "'k prng \<Rightarrow> 'k \<Rightarrow> nat \<Rightarrow> int \<Rightarrow> int \<Rightarrow> int list" where
  "randint P key n minval maxval = map (random_randint P key n minval maxval) [0 ..< n]"

text \<open>\<^verbatim>\<open>jnp.zeros((n, m), dtype)\<close>; a negative dimension is rejected.\<close>

definition zeros :: "int \<Rightarrow> int \<Rightarrow> error + 'c::zero batch" where
  "zeros n m =
     (if n < 0 \<or> m < 0 then Inl ShapeError
      else Inr (replicate (nat n) (replicate (nat m) 0)))"

text \<open>
  Indexing a JAX array with an integer: a negative index counts from the end; a read
  outside the array is clamped to the nearest entry, an update outside the array is
  dropped. A read from an array with no entry raises; \<open>getitem\<close> is for an array that has
  one, and its caller checks.
\<close>

definition normalize_index :: "nat \<Rightarrow> int \<Rightarrow> int" where
  "normalize_index n i = (if i < 0 then i + int n else i)"

definition getitem :: "'a list \<Rightarrow> int \<Rightarrow> 'a" where
  "getitem xs i = xs ! nat (min (max (normalize_index (length xs) i) 0) (int (length xs) - 1))"

definition index_update :: "'a list \<Rightarrow> int \<Rightarrow> 'a \<Rightarrow> 'a list" where
  "index_update xs i v =
     (let j = normalize_index (length xs) i
      in if 0 \<le> j \<and> j < int (length xs) then xs[nat j := v] else xs)"

text \<open>
  An elementwise operation on two one-dimensional arrays, and the two uses of
  \<^verbatim>\<open>jnp.where\<close>: on rows (the condition reshaped to a column) and on entries. Operands
  of different shapes are an error here; broadcasting an axis of length one against a
  longer one is not modelled, and no theorem below speaks about such a call.
\<close>

definition elementwise :: "('a \<Rightarrow> 'b \<Rightarrow> 'r) \<Rightarrow> 'a list \<Rightarrow> 'b list \<Rightarrow> error + 'r list" where
  "elementwise f xs ys =
     (if length xs = length ys then Inr (map2 f xs ys) else Inl ShapeError)"

definition where_entries :: "bool list \<Rightarrow> 'a list \<Rightarrow> 'a list \<Rightarrow> error + 'a list" where
  "where_entries cond xs ys =
     (if length cond = length xs \<and> length xs = length ys
      then Inr (map (\<lambda>(b, x, y). if b then x else y) (zip cond (zip xs ys)))
      else Inl ShapeError)"

definition where_rows :: "bool list \<Rightarrow> 'c batch \<Rightarrow> 'c batch \<Rightarrow> error + 'c batch" where
  "where_rows cond xs ys =
     (if list_all2 (\<lambda>x y. length x = length y) xs ys
      then where_entries cond xs ys
      else Inl ShapeError)"

text \<open>\<^verbatim>\<open>do_accept.sum()\<close>: the number of flags that are set.\<close>

definition sum_flags :: "bool list \<Rightarrow> int" where
  "sum_flags flags = sum_list (map of_bool flags)"

subsection \<open>metropolis.py: rule, state and sampler\<close>

type_synonym ('c, 'p) machine = "'p \<Rightarrow> 'c batch \<Rightarrow> complex list"

text \<open>
  The counter of accepted moves is a Python integer in the state that \<^verbatim>\<open>_init_state\<close>
  builds and a jax integer scalar in every state that \<^verbatim>\<open>_sample_next\<close> returns:
  \<^verbatim>\<open>s.accepted\<close> is a variable of the loop scope, hence a jax array. \<open>asarray\<close> is the
  conversion on entry to the scope, \<open>counter_val\<close> the integer a counter stands for.
\<close>

datatype counter = PyInt int | JaxInt "64 word"

fun asarray :: "counter \<Rightarrow> error + 64 word" where
  "asarray (PyInt i) =
     (if - (2 ^ 63) \<le> i \<and> i < 2 ^ 63 then Inr (word_of_int i) else Inl OverflowError)"
| "asarray (JaxInt w) = Inr w"

fun counter_val :: "counter \<Rightarrow> int" where
  "counter_val (PyInt i) = i"
| "counter_val (JaxInt w) = sint w"

text \<open>
  A floating-point result: a number (idealised as a real), or one of the three special
  values that a division by zero yields in jax.
\<close>

datatype fp = Finite real | NaN | PosInf | NegInf

record ('c, 'k, 'rs) MetropolisSamplerState =
  \<sigma> :: "'c batch"
  rng :: 'k
  rule_state :: 'rs
  n_samples :: int
  n_accepted :: counter

text \<open>
  The fields of the base class \<^verbatim>\<open>Sampler\<close> that the code reads (\<open>hilbert_size\<close> is
  \<^verbatim>\<open>sampler.hilbert.size\<close>), and \<^verbatim>\<open>n_sweeps\<close>. A rule's method receives this record as
  its \<^verbatim>\<open>sampler\<close> argument.
\<close>

record Sampler =
  hilbert_size :: int
  n_chains :: int
  machine_pow :: real
  n_sweeps :: int

text \<open>
  A rule is the record of its methods. \<^verbatim>\<open>transition\<close> returns the proposed batch and
  the optional correction, or raises. (\<^verbatim>\<open>reset\<close> and \<^verbatim>\<open>random_state\<close> serve
  \<^verbatim>\<open>_reset\<close> only and are not embedded.)
\<close>

record ('c, 'k, 'rs, 'p) MetropolisRule =
  rule_init_state :: "Sampler \<Rightarrow> ('c, 'p) machine \<Rightarrow> 'p \<Rightarrow> 'k \<Rightarrow> 'rs"
  rule_transition ::
    "Sampler \<Rightarrow> ('c, 'p) machine \<Rightarrow> 'p \<Rightarrow> ('c, 'k, 'rs) MetropolisSamplerState \<Rightarrow> 'k \<Rightarrow> 'c batch
       \<Rightarrow> error + ('c batch \<times> real list option)"

record ('c, 'k, 'rs, 'p) MetropolisSampler = Sampler +
  rule :: "('c, 'k, 'rs, 'p) MetropolisRule"

text \<open>The defaults of the base class \<^verbatim>\<open>MetropolisRule\<close>.\<close>

definition MetropolisRule_init_state ::
  "Sampler \<Rightarrow> ('c, 'p) machine \<Rightarrow> 'p \<Rightarrow> 'k \<Rightarrow> 'rs option" where
  "MetropolisRule_init_state sampler machine params key = None"

definition MetropolisRule_transition ::
  "Sampler \<Rightarrow> ('c, 'p) machine \<Rightarrow> 'p \<Rightarrow> ('c, 'k, 'rs) MetropolisSamplerState \<Rightarrow> 'k \<Rightarrow> 'c batch
     \<Rightarrow> error + ('c batch \<times> real list option)" where
  "MetropolisRule_transition sampler machine parameters state key \<sigma>c = Inl NotImplementedError"

subsection \<open>exchange.py: the transition\<close>

text \<open>
  \<^verbatim>\<open>scalar_update_fun(\<sigma>, cluster)\<close>: both reads are from the configuration it was
  given, the second update is applied to the result of the first.
\<close>

definition scalar_update_fun :: "ExchangeRule_ \<Rightarrow> 'c list \<Rightarrow> int \<Rightarrow> 'c list" where
  "scalar_update_fun r \<sigma>c cluster =
     (let si = fst (getitem (clusters r) cluster);
          sj = snd (getitem (clusters r) cluster);
          \<sigma>p = index_update \<sigma>c si (getitem \<sigma>c sj)
      in index_update \<sigma>p sj (getitem \<sigma>c si))"

text \<open>
  \<^verbatim>\<open>ExchangeRule_.transition\<close>: one cluster index per chain, then \<^verbatim>\<open>jax.vmap\<close> of the
  scalar update over the chains. The correction is \<^verbatim>\<open>None\<close>.
\<close>

definition ExchangeRule_transition ::
  "'k prng \<Rightarrow> ExchangeRule_ \<Rightarrow> 'k \<Rightarrow> 'c batch \<Rightarrow> 'c batch \<times> real list option" where
  "ExchangeRule_transition P r key \<sigma>c =
     (let n = length \<sigma>c;
          cluster_id = randint P key n 0 (int (length (clusters r)))
      in (map2 (scalar_update_fun r) \<sigma>c cluster_id, None))"

text \<open>
  The Exchange rule as a rule: \<^verbatim>\<open>init_state\<close> is inherited from the base class. With a
  table that has no entry, the read \<^verbatim>\<open>rule.clusters[cluster, 0]\<close> of the transition raises.
\<close>

definition ExchangeRule_methods ::
  "'k prng \<Rightarrow> ExchangeRule_ \<Rightarrow> ('c, 'k, 'rs option, 'p) MetropolisRule" where
  "ExchangeRule_methods P r =
     \<lparr>rule_init_state = MetropolisRule_init_state,
      rule_transition = (\<lambda>sampler machine parameters state key \<sigma>c.
         if clusters r = [] then Inl IndexError
         else Inr (ExchangeRule_transition P r key \<sigma>c))\<rparr>"

subsection \<open>metropolis.py: the sampler's methods\<close>

text \<open>\<^verbatim>\<open>MetropolisSampler._init_state\<close>.\<close>

definition init_state ::
  "'k prng \<Rightarrow> ('c::zero, 'k, 'rs, 'p) MetropolisSampler \<Rightarrow> ('c, 'p) machine \<Rightarrow> 'p \<Rightarrow> 'k
     \<Rightarrow> error + ('c, 'k, 'rs) MetropolisSamplerState" where
  "init_state P sampler machine params key =
     (let key_state = random_split P key 2 0;
          key_rule = random_split P key 2 1
      in case zeros (n_chains sampler) (hilbert_size sampler) of
           Inl e \<Rightarrow> Inl e
         | Inr \<sigma>0 \<Rightarrow>
             (let rs = rule_init_state (rule sampler) (Sampler.truncate sampler) machine params key_rule
              in Inr \<lparr>\<sigma> = \<sigma>0, rng = key_state, rule_state = rs, n_samples = 0,
                     n_accepted = PyInt 0\<rparr>))"

text \<open>
  \<^verbatim>\<open>MetropolisSamplerState.__repr__\<close>: the value \<^verbatim>\<open>self.n_accepted / self.n_samples * 100\<close>
  that it prints, followed by a percent sign, after the two counters. Between two Python
  integers \<^verbatim>\<open>/\<close> raises on a zero divisor; when \<^verbatim>\<open>n_accepted\<close> is a jax scalar the
  division is the one of jax, which yields not-a-number or an infinity there.
\<close>

definition jax_true_divide :: "int \<Rightarrow> int \<Rightarrow> fp" where
  "jax_true_divide a n =
     (if n = 0 then (if a = 0 then NaN else if 0 < a then PosInf else NegInf)
      else Finite (real_of_int a / real_of_int n))"

fun times_100 :: "fp \<Rightarrow> fp" where
  "times_100 (Finite x) = Finite (x * 100)"
| "times_100 NaN = NaN"
| "times_100 PosInf = PosInf"
| "times_100 NegInf = NegInf"

definition repr_acceptance_rate :: "('c, 'k, 'rs) MetropolisSamplerState \<Rightarrow> error + fp" where
  "repr_acceptance_rate self =
     (case n_accepted self of
        PyInt a \<Rightarrow>
          (if n_samples self = 0 then Inl ZeroDivisionError
           else Inr (Finite (real_of_int a / real_of_int (n_samples self) * 100)))
      | JaxInt w \<Rightarrow> Inr (times_100 (jax_true_divide (sint w) (n_samples self))))"

text \<open>The variables of the \<^verbatim>\<open>loops.Scope\<close> of \<^verbatim>\<open>_sample_next\<close>.\<close>

record ('c, 'k) Scope =
  s_key :: 'k
  s_\<sigma> :: "'c batch"
  s_log_prob :: "real list"
  s_accepted :: "64 word"

text \<open>\<^verbatim>\<open>sampler.machine_pow * machine(parameters, \<sigma>).real\<close>.\<close>

definition log_prob_of ::
  "('c, 'k, 'rs, 'p) MetropolisSampler \<Rightarrow> ('c, 'p) machine \<Rightarrow> 'p \<Rightarrow> 'c batch \<Rightarrow> real list" where
  "log_prob_of sampler machine parameters \<sigma>c =
     map (\<lambda>z. machine_pow sampler * Re z) (machine parameters \<sigma>c)"

text \<open>
  The two branches that compute \<^verbatim>\<open>do_accept\<close>, with and without a correction.
\<close>

definition do_accept_of ::
  "real list \<Rightarrow> real list \<Rightarrow> real list \<Rightarrow> real list option \<Rightarrow> error + bool list" where
  "do_accept_of unif proposal_log_prob log_prob log_prob_correction =
     (case elementwise (\<lambda>a b. a - b) proposal_log_prob log_prob of
        Inl e \<Rightarrow> Inl e
      | Inr d \<Rightarrow>
          (case log_prob_correction of
             Some c \<Rightarrow>
               (case elementwise (\<lambda>a b. a + b) d c of
                  Inl e \<Rightarrow> Inl e
                | Inr a \<Rightarrow> elementwise (\<lambda>u x. u < exp x) unif a)
           | None \<Rightarrow> elementwise (\<lambda>u x. u < exp x) unif d))"

text \<open>
  The first half of the loop body: the proposal of the rule, its log-probability, the
  uniform variates and \<^verbatim>\<open>do_accept\<close>. The rule receives the state \<^verbatim>\<open>_sample_next\<close> was
  called with. The result is the proposed batch, its log-probabilities and the flags.
\<close>

definition propose ::
  "'k prng \<Rightarrow> ('c, 'k, 'rs, 'p) MetropolisSampler \<Rightarrow> ('c, 'p) machine \<Rightarrow> 'p
     \<Rightarrow> ('c, 'k, 'rs) MetropolisSamplerState \<Rightarrow> ('c, 'k) Scope
     \<Rightarrow> error + ('c batch \<times> real list \<times> bool list)" where
  "propose P sampler machine parameters state s =
     (let key1 = random_split P (s_key s) 3 1;
          key2 = random_split P (s_key s) 3 2
      in case rule_transition (rule sampler) (Sampler.truncate sampler) machine parameters
                state key1 (s_\<sigma> s) of
           Inl e \<Rightarrow> Inl e
         | Inr (\<sigma>p, log_prob_correction) \<Rightarrow>
             (let proposal_log_prob = log_prob_of sampler machine parameters \<sigma>p
              in case uniform P key2 (n_chains sampler) of
                   Inl e \<Rightarrow> Inl e
                 | Inr unif \<Rightarrow>
                     (case do_accept_of unif proposal_log_prob (s_log_prob s)
                             log_prob_correction of
                        Inl e \<Rightarrow> Inl e
                      | Inr do_accept \<Rightarrow> Inr (\<sigma>p, proposal_log_prob, do_accept))))"

text \<open>The whole loop body: the second half selects per chain and counts.\<close>

definition sweep_body ::
  "'k prng \<Rightarrow> ('c, 'k, 'rs, 'p) MetropolisSampler \<Rightarrow> ('c, 'p) machine \<Rightarrow> 'p
     \<Rightarrow> ('c, 'k, 'rs) MetropolisSamplerState \<Rightarrow> ('c, 'k) Scope \<Rightarrow> error + ('c, 'k) Scope" where
  "sweep_body P sampler machine parameters state s =
     (case propose P sampler machine parameters state s of
        Inl e \<Rightarrow> Inl e
      | Inr (\<sigma>p, proposal_log_prob, do_accept) \<Rightarrow>
          (case where_rows do_accept \<sigma>p (s_\<sigma> s) of
             Inl e \<Rightarrow> Inl e
           | Inr \<sigma>' \<Rightarrow>
               (case where_entries do_accept proposal_log_prob (s_log_prob s) of
                  Inl e \<Rightarrow> Inl e
                | Inr log_prob' \<Rightarrow>
                    Inr \<lparr>s_key = random_split P (s_key s) 3 0,
                         s_\<sigma> = \<sigma>',
                         s_log_prob = log_prob',
                         s_accepted = s_accepted s + word_of_int (sum_flags do_accept)\<rparr>)))"

text \<open>\<^verbatim>\<open>for i in s.range(sampler.n_sweeps)\<close>: the body, so many times in sequence.\<close>

fun sweep_loop ::
  "'k prng \<Rightarrow> ('c, 'k, 'rs, 'p) MetropolisSampler \<Rightarrow> ('c, 'p) machine \<Rightarrow> 'p
     \<Rightarrow> ('c, 'k, 'rs) MetropolisSamplerState \<Rightarrow> nat \<Rightarrow> ('c, 'k) Scope \<Rightarrow> error + ('c, 'k) Scope" where
  "sweep_loop P sampler machine parameters state 0 s = Inr s"
| "sweep_loop P sampler machine parameters state (Suc n) s =
     (case sweep_body P sampler machine parameters state s of
        Inl e \<Rightarrow> Inl e
      | Inr s' \<Rightarrow> sweep_loop P sampler machine parameters state n s')"

text \<open>
  \<^verbatim>\<open>MetropolisSampler._sample_next\<close>. A range over a negative number is empty. The
  counter of attempted moves is updated outside the scope, in Python integers.
\<close>

definition sample_next ::
  "'k prng \<Rightarrow> ('c, 'k, 'rs, 'p) MetropolisSampler \<Rightarrow> ('c, 'p) machine \<Rightarrow> 'p
     \<Rightarrow> ('c, 'k, 'rs) MetropolisSamplerState
     \<Rightarrow> error + (('c, 'k, 'rs) MetropolisSamplerState \<times> 'c batch)" where
  "sample_next P sampler machine parameters state =
     (let new_rng = random_split P (rng state) 2 0;
          rng0 = random_split P (rng state) 2 1
      in case asarray (n_accepted state) of
           Inl e \<Rightarrow> Inl e
         | Inr accepted0 \<Rightarrow>
             (let s0 = \<lparr>s_key = rng0,
                       s_\<sigma> = \<sigma> state,
                       s_log_prob = log_prob_of sampler machine parameters (\<sigma> state),
                       s_accepted = accepted0\<rparr>
              in case sweep_loop P sampler machine parameters state (nat (n_sweeps sampler)) s0 of
                   Inl e \<Rightarrow> Inl e
                 | Inr s \<Rightarrow>
                     (let new_state = state
                            \<lparr>rng := new_rng,
                             \<sigma> := s_\<sigma> s,
                             n_accepted := JaxInt (s_accepted s),
                             n_samples := n_samples state + n_sweeps sampler * n_chains sampler\<rparr>
                      in Inr (new_state, \<sigma> new_state))))"




text \<open>
  A cluster table fit for configurations of \<open>n\<close> sites: it has an entry, and every
  entry is a pair of site indices.
\<close>

definition clusters_within :: "cluster list \<Rightarrow> nat \<Rightarrow> bool" where
  "clusters_within cs n =
     (cs \<noteq> [] \<and> list_all (\<lambda>(i, j). 0 \<le> i \<and> i < int n \<and> 0 \<le> j \<and> j < int n) cs)"

text \<open>Two batches whose rows hold, chain by chain, the same values with the same multiplicities.\<close>

definition same_values :: "'c batch \<Rightarrow> 'c batch \<Rightarrow> bool" where
  "same_values xs ys = list_all2 (\<lambda>a b. mset a = mset b) xs ys"

subsection \<open>Concrete instances\<close>

text \<open>The path on three nodes \<open>0 - 1 - 2\<close>, by its matrix of distances.\<close>

definition path3 :: "int graph" where
  "path3 = \<lparr>distances = [[0, 1, 2], [1, 0, 1], [2, 1, 0]]\<rparr>"

text \<open>
  A sampler for the witnesses: keys are natural numbers, every uniform variate is
  \<open>1/2\<close>, the machine gives every configuration the log-amplitude \<open>0\<close>, and the rule is
  the Exchange rule on the table \<open>[(0, 1), (1, 2), (2, 3)]\<close>; two chains of four sites,
  two sweeps.
\<close>

definition ex_prng :: "nat prng" where
  "ex_prng =
     \<lparr>random_split = (\<lambda>key num i. key * (num + 1) + i + 1),
      random_uniform = (\<lambda>key n i. 1 / 2),
      random_randint = (\<lambda>key n minval maxval i.
         minval + int ((key + i) mod nat (maxval - minval)))\<rparr>"

definition ex_machine :: "(int, unit) machine" where
  "ex_machine params \<sigma>c = map (\<lambda>row. 0) \<sigma>c"

definition ex_rule :: ExchangeRule_ where
  "ex_rule = \<lparr>clusters = [(0, 1), (1, 2), (2, 3)]\<rparr>"

definition ex_sampler :: "(int, nat, unit option, unit) MetropolisSampler" where
  "ex_sampler =
     \<lparr>hilbert_size = 4, n_chains = 2, machine_pow = 2, n_sweeps = 2,
      rule = ExchangeRule_methods ex_prng ex_rule\<rparr>"

definition ex_state :: "(int, nat, unit option) MetropolisSamplerState" where
  "ex_state =
     \<lparr>\<sigma> = [[1, 1, - 1, - 1], [1, - 1, 1, - 1]], rng = 0, rule_state = None,
      n_samples = 0, n_accepted = PyInt 0\<rparr>"

definition ex_scope :: "(int, nat) Scope" where
  "ex_scope =
     \<lparr>s_key = 2, s_\<sigma> = [[1, 1, - 1, - 1], [1, - 1, 1, - 1]], s_log_prob = [0, 0],
      s_accepted = 0\<rparr>"

text \<open>
  A machine that gives the configuration \<open>[1, -1, -1, 1]\<close> the log-amplitude
  \<open>ln (1/4) / 2\<close> and every other one \<open>0\<close>, and the scope that one round from
  \<open>ex_scope\<close> leaves with it.
\<close>

definition ex_machine_b :: "(int, unit) machine" where
  "ex_machine_b params \<sigma>c =
     map (\<lambda>row. if row = [1, - 1, - 1, 1] then Complex (ln (1 / 4) / 2) 0 else 0) \<sigma>c"

definition ex_scope_b :: "(int, nat) Scope" where
  "ex_scope_b =
     \<lparr>s_key = 9, s_\<sigma> = [[1, - 1, 1, - 1], [1, - 1, 1, - 1]], s_log_prob = [0, 0],
      s_accepted = 1\<rparr>"

text \<open>The state that \<open>sample_next\<close> returns from \<open>ex_state\<close>.\<close>

definition ex_state' :: "(int, nat, unit option) MetropolisSamplerState" where
  "ex_state' =
     \<lparr>\<sigma> = [[1, - 1, - 1, 1], [- 1, 1, - 1, 1]], rng = 1, rule_state = None,
      n_samples = 4, n_accepted = JaxInt 4\<rparr>"

text \<open>
  The state that \<open>init_state\<close> returns for the example sampler, and a state whose counters
  are at the largest 64-bit integer.
\<close>

definition ex_state0 :: "(int, nat, unit option) MetropolisSamplerState" where
  "ex_state0 =
     \<lparr>\<sigma> = [[0, 0, 0, 0], [0, 0, 0, 0]], rng = 1, rule_state = None,
      n_samples = 0, n_accepted = PyInt 0\<rparr>"


subsection \<open>Properties of the cluster table\<close>

lemma clusters_row_eq:
  "list_all (\<lambda>j. j < length row) js \<Longrightarrow>
   clusters_row row d_max i js acc =
     Inr (acc @ map (\<lambda>j. (int i, int j)) (filter (\<lambda>j. row ! j \<le> d_max) js))"
  by (induction js arbitrary: acc) auto

lemma clusters_rows_eq:
  "square dists \<Longrightarrow> list_all (\<lambda>i. i < length dists) is \<Longrightarrow>
   clusters_rows dists d_max is acc =
     Inr (acc @ concat (map (\<lambda>i. map (\<lambda>j. (int i, int j))
                          (filter (\<lambda>j. dists ! i ! j \<le> d_max) [i + 1 ..< length dists])) is))"
proof (induction "is" arbitrary: acc)
  case Nil
  then show ?case by simp
next
  case (Cons i "is")
  from Cons.prems have i: "i < length dists" and rest: "list_all (\<lambda>i. i < length dists) is"
    by simp_all
  from Cons.prems(1) i have len: "length (dists ! i) = length dists"
    by (simp add: square_def list_all_length)
  have cols: "list_all (\<lambda>j. j < length (dists ! i)) [Suc i ..< length dists]"
    by (simp add: len list_all_iff)
  have row: "clusters_row (dists ! i) d_max i [Suc i ..< length dists] acc =
      Inr (acc @ map (\<lambda>j. (int i, int j))
                   (filter (\<lambda>j. dists ! i ! j \<le> d_max) [Suc i ..< length dists]))"
    by (rule clusters_row_eq [OF cols])
  show ?case
    by (simp add: row Cons.IH [OF Cons.prems(1) rest])
qed

lemma compute_clusters_eq:
  "square (distances graph) \<Longrightarrow>
   compute_clusters graph d_max = Inr (cluster_pairs_spec (distances graph) d_max)"
  by (simp add: compute_clusters_def cluster_pairs_spec_def clusters_rows_eq list_all_iff Let_def)

lemma row_sorted:
  "sorted_wrt lex_less (map (\<lambda>j. (int i, int j)) (filter Q [a ..< b]))"
proof -
  have "sorted_wrt (<) (filter Q [a ..< b])"
    by (rule sorted_wrt_filter) simp
  then show ?thesis
    by (simp add: sorted_wrt_map lex_less_def)
qed

lemma rows_sorted:
  "sorted_wrt (<) is \<Longrightarrow>
   sorted_wrt lex_less
     (concat (map (\<lambda>i. map (\<lambda>j. (int i, int j)) (filter (Q i) [lo i ..< hi])) is))"
proof (induction "is")
  case Nil
  then show ?case by simp
next
  case (Cons i "is")
  let ?f = "\<lambda>i. map (\<lambda>j. (int i, int j)) (filter (Q i) [lo i ..< hi])"
  have a: "sorted_wrt lex_less (?f i)" by (rule row_sorted)
  have b: "sorted_wrt lex_less (concat (map ?f is))" using Cons by simp
  have c: "\<forall>x\<in>set (?f i). \<forall>y\<in>set (concat (map ?f is)). lex_less x y"
    using Cons.prems by (auto simp: lex_less_def)
  show ?case using a b c by (simp add: sorted_wrt_append)
qed

lemma lex_less_distinct: "sorted_wrt lex_less cs \<Longrightarrow> distinct cs"
  by (induction cs) (auto simp: lex_less_def)

lemma set_cluster_pairs_spec:
  "set (cluster_pairs_spec dists d_max) =
     {(int i, int j) | i j. i < j \<and> j < length dists \<and> dists ! i ! j \<le> d_max}"
  unfolding cluster_pairs_spec_def by force

lemma sorted_cluster_pairs_spec: "sorted_wrt lex_less (cluster_pairs_spec dists d_max)"
  unfolding cluster_pairs_spec_def by (rule rows_sorted) simp

lemma square_path3: "square (distances path3)"
  by (simp add: path3_def square_def)

lemma cluster_pairs_path3: "cluster_pairs_spec (distances path3) 1 = [(0, 1), (1, 2)]"
  by (simp add: cluster_pairs_spec_def path3_def upt_rec)

text \<open>
  C6. For a graph whose matrix of distances is square, \<open>compute_clusters\<close> returns the
  pairs \<open>(i, j)\<close> with \<open>i < j\<close> and \<open>distances[i][j] \<le> d_max\<close>, and no other pair; the
  list is the enumeration of these pairs in lexicographic order (it is strictly
  increasing in that order, hence without duplicates).
\<close>

theorem compute_clusters_correct:
  assumes "square (distances graph)"
  shows "\<exists>cs. compute_clusters graph d_max = Inr cs
           \<and> cs = cluster_pairs_spec (distances graph) d_max
           \<and> set cs = {(int i, int j) | i j.
                 i < j \<and> j < length (distances graph) \<and> distances graph ! i ! j \<le> d_max}
           \<and> sorted_wrt lex_less cs \<and> distinct cs"
proof -
  let ?cs = "cluster_pairs_spec (distances graph) d_max"
  have srt: "sorted_wrt lex_less ?cs"
    by (rule sorted_cluster_pairs_spec)
  show ?thesis
    using compute_clusters_eq [OF assms] set_cluster_pairs_spec [of "distances graph" d_max]
      srt lex_less_distinct [OF srt] by simp
qed

theorem compute_clusters_correct_witness:
  "square (distances path3) \<and> compute_clusters path3 1 = Inr [(0, 1), (1, 2)]"
  using compute_clusters_correct [OF square_path3, of 1]
  by (simp add: square_path3 cluster_pairs_path3)

subsection \<open>Construction of the Exchange rule\<close>

text \<open>
  C5. \<open>ExchangeRule\<close> returns a rule exactly when one of the two arguments is supplied
  and the other is not: with the cluster list alone the rule holds that list, with the
  graph alone (its matrix square) it holds the computed table; with both, or with
  neither, the result is the \<open>ValueError\<close> and no rule.
\<close>

theorem ExchangeRule_validation:
  fixes g :: "'d::linorder graph option"
  shows "(\<forall>cs. c = Some cs \<and> g = None \<longrightarrow> ExchangeRule c g d = Inr \<lparr>clusters = cs\<rparr>)
       \<and> (\<forall>gr. c = None \<and> g = Some gr \<and> square (distances gr) \<longrightarrow>
             ExchangeRule c g d = Inr \<lparr>clusters = cluster_pairs_spec (distances gr) d\<rparr>)
       \<and> (c \<noteq> None \<and> g \<noteq> None \<longrightarrow> ExchangeRule c g d = Inl ValueError)
       \<and> (c = None \<and> g = None \<longrightarrow> ExchangeRule c g d = Inl ValueError)
       \<and> (\<forall>r. ExchangeRule c g d = Inr r \<longrightarrow> (c = None) \<noteq> (g = None))"
  by (auto simp: ExchangeRule_def compute_clusters_eq split: if_splits)

theorem ExchangeRule_validation_witness:
  "ExchangeRule (Some [(0, 1)]) (None :: int graph option) 1 = Inr \<lparr>clusters = [(0, 1)]\<rparr>
   \<and> square (distances path3)
   \<and> ExchangeRule None (Some path3) 1 = Inr \<lparr>clusters = [(0, 1), (1, 2)]\<rparr>
   \<and> ExchangeRule (Some [(0, 1)]) (Some path3) 1 = Inl ValueError
   \<and> ExchangeRule None (None :: int graph option) 1 = Inl ValueError"
  using ExchangeRule_validation [of "Some [(0, 1)]" "None :: int graph option" 1]
    ExchangeRule_validation [of None "Some path3" 1]
    ExchangeRule_validation [of "Some [(0, 1)]" "Some path3" 1]
    ExchangeRule_validation [of None "None :: int graph option" 1]
  by (simp add: square_path3 cluster_pairs_path3)

subsection \<open>The array primitives\<close>

lemma elementwise_Inr:
  "elementwise f xs ys = Inr zs \<Longrightarrow>
   length xs = length ys \<and> length zs = length xs \<and> (\<forall>i<length xs. zs ! i = f (xs ! i) (ys ! i))"
  by (auto simp: elementwise_def split: if_splits)

lemma where_entries_Inr:
  "where_entries cond xs ys = Inr zs \<Longrightarrow>
   length cond = length xs \<and> length ys = length xs \<and> length zs = length xs
   \<and> (\<forall>i<length xs. zs ! i = (if cond ! i then xs ! i else ys ! i))"
  by (auto simp: where_entries_def split: if_splits)

lemma where_rows_Inr:
  "where_rows cond xs ys = Inr zs \<Longrightarrow>
   length cond = length xs \<and> length ys = length xs \<and> length zs = length xs
   \<and> (\<forall>i<length xs. zs ! i = (if cond ! i then xs ! i else ys ! i))"
  unfolding where_rows_def by (auto split: if_splits dest: where_entries_Inr)

lemma uniform_Inr:
  "uniform P key n = Inr us \<Longrightarrow>
   0 \<le> n \<and> length us = nat n \<and> (\<forall>i<nat n. us ! i = random_uniform P key (nat n) i)"
  by (auto simp: uniform_def split: if_splits)

lemma do_accept_of_Inr:
  assumes "do_accept_of unif plp lp corr = Inr flags"
  shows "length flags = length unif \<and> length plp = length unif \<and> length lp = length unif
     \<and> (\<forall>c. corr = Some c \<longrightarrow> length c = length unif)
     \<and> (\<forall>i<length unif. flags ! i =
           (unif ! i < exp (plp ! i - lp ! i + (case corr of None \<Rightarrow> 0 | Some c \<Rightarrow> c ! i))))"
proof (cases corr)
  case None
  from assms obtain d where d: "elementwise (\<lambda>a b. a - b) plp lp = Inr d"
    and f: "elementwise (\<lambda>u x. u < exp x) unif d = Inr flags"
    by (auto simp: do_accept_of_def None split: sum.splits)
  from elementwise_Inr [OF d] elementwise_Inr [OF f] show ?thesis
    by (simp add: None)
next
  case (Some c)
  from assms obtain d a where d: "elementwise (\<lambda>a b. a - b) plp lp = Inr d"
    and a: "elementwise (\<lambda>a b. a + b) d c = Inr a"
    and f: "elementwise (\<lambda>u x. u < exp x) unif a = Inr flags"
    by (auto simp: do_accept_of_def Some split: sum.splits)
  from elementwise_Inr [OF d] elementwise_Inr [OF a] elementwise_Inr [OF f] show ?thesis
    by (simp add: Some)
qed

lemma sum_flags_bounds: "0 \<le> sum_flags flags \<and> sum_flags flags \<le> int (length flags)"
  unfolding sum_flags_def by (induction flags) auto


subsection \<open>One round of the sweep loop\<close>

lemma propose_Inr:
  assumes "propose P sampler machine parameters state s = Inr (\<sigma>p, plp, flags)"
  shows "\<exists>corr.
      rule_transition (rule sampler) (Sampler.truncate sampler) machine parameters state
        (random_split P (s_key s) 3 1) (s_\<sigma> s) = Inr (\<sigma>p, corr)
      \<and> plp = log_prob_of sampler machine parameters \<sigma>p
      \<and> 0 \<le> n_chains sampler
      \<and> length flags = nat (n_chains sampler)
      \<and> length plp = nat (n_chains sampler)
      \<and> length (s_log_prob s) = nat (n_chains sampler)
      \<and> (\<forall>i<nat (n_chains sampler). flags ! i =
            (random_uniform P (random_split P (s_key s) 3 2) (nat (n_chains sampler)) i
               < exp (plp ! i - s_log_prob s ! i + (case corr of None \<Rightarrow> 0 | Some c \<Rightarrow> c ! i))))"
proof -
  from assms obtain corr unif where
    t: "rule_transition (rule sampler) (Sampler.truncate sampler) machine parameters state
          (random_split P (s_key s) 3 1) (s_\<sigma> s) = Inr (\<sigma>p, corr)"
    and p: "plp = log_prob_of sampler machine parameters \<sigma>p"
    and u: "uniform P (random_split P (s_key s) 3 2) (n_chains sampler) = Inr unif"
    and d: "do_accept_of unif plp (s_log_prob s) corr = Inr flags"
    by (auto simp: propose_def Let_def split: sum.splits prod.splits)
  from uniform_Inr [OF u] do_accept_of_Inr [OF d] t p show ?thesis
    by auto
qed

lemma sweep_body_Inr:
  assumes "sweep_body P sampler machine parameters state s = Inr s'"
  shows "\<exists>\<sigma>p plp flags.
      propose P sampler machine parameters state s = Inr (\<sigma>p, plp, flags)
      \<and> length \<sigma>p = length flags \<and> length (s_\<sigma> s) = length flags
      \<and> length (s_\<sigma> s') = length flags \<and> length (s_log_prob s') = length flags
      \<and> (\<forall>i<length flags.
            s_\<sigma> s' ! i = (if flags ! i then \<sigma>p ! i else s_\<sigma> s ! i)
          \<and> s_log_prob s' ! i = (if flags ! i then plp ! i else s_log_prob s ! i))
      \<and> s_accepted s' = s_accepted s + word_of_int (sum_flags flags)
      \<and> s_key s' = random_split P (s_key s) 3 0"
proof -
  from assms obtain \<sigma>p plp flags \<sigma>' lp' where
    p: "propose P sampler machine parameters state s = Inr (\<sigma>p, plp, flags)"
    and w: "where_rows flags \<sigma>p (s_\<sigma> s) = Inr \<sigma>'"
    and e: "where_entries flags plp (s_log_prob s) = Inr lp'"
    and s': "s' = \<lparr>s_key = random_split P (s_key s) 3 0, s_\<sigma> = \<sigma>', s_log_prob = lp',
                   s_accepted = s_accepted s + word_of_int (sum_flags flags)\<rparr>"
    by (auto simp: sweep_body_def split: sum.splits prod.splits)
  from where_rows_Inr [OF w] where_entries_Inr [OF e] p s' show ?thesis
    by auto
qed

text \<open>
  C1. In a round of the loop that completes, chain \<open>i\<close> is accepted exactly when its
  uniform variate is strictly below \<open>exp (proposed - current + correction)\<close>, the
  correction being absent (zero) when the rule returned none; an accepted chain takes
  the proposed configuration and log-probability, any other chain keeps its own.
\<close>

theorem sweep_body_accept:
  assumes body: "sweep_body P sampler machine parameters state s = Inr s'"
    and trans: "rule_transition (rule sampler) (Sampler.truncate sampler) machine parameters state
                  (random_split P (s_key s) 3 1) (s_\<sigma> s) = Inr (\<sigma>p, corr)"
    and i: "i < length (s_\<sigma> s)"
  shows "let u = random_uniform P (random_split P (s_key s) 3 2) (nat (n_chains sampler)) i;
             proposed = log_prob_of sampler machine parameters \<sigma>p ! i;
             current = s_log_prob s ! i;
             accept = (u < exp (proposed - current + (case corr of None \<Rightarrow> 0 | Some c \<Rightarrow> c ! i)))
         in s_\<sigma> s' ! i = (if accept then \<sigma>p ! i else s_\<sigma> s ! i)
          \<and> s_log_prob s' ! i = (if accept then proposed else current)"
proof -
  from sweep_body_Inr [OF body] obtain \<sigma>q plp flags where
    p: "propose P sampler machine parameters state s = Inr (\<sigma>q, plp, flags)"
    and len: "length (s_\<sigma> s) = length flags"
    and sel: "\<forall>i<length flags.
            s_\<sigma> s' ! i = (if flags ! i then \<sigma>q ! i else s_\<sigma> s ! i)
          \<and> s_log_prob s' ! i = (if flags ! i then plp ! i else s_log_prob s ! i)"
    by blast
  from propose_Inr [OF p] trans have q: "\<sigma>q = \<sigma>p"
    and plp: "plp = log_prob_of sampler machine parameters \<sigma>p"
    and n: "length flags = nat (n_chains sampler)"
    and fl: "\<forall>i<nat (n_chains sampler). flags ! i =
            (random_uniform P (random_split P (s_key s) 3 2) (nat (n_chains sampler)) i
               < exp (plp ! i - s_log_prob s ! i + (case corr of None \<Rightarrow> 0 | Some c \<Rightarrow> c ! i)))"
    by auto
  from i len n have i': "i < length flags" "i < nat (n_chains sampler)" by simp_all
  from sel i'(1) fl i'(2) show ?thesis
    by (simp add: Let_def q plp)
qed

subsection \<open>The sweep loop and the counters\<close>

lemma word_of_int_sint_64: "word_of_int (sint w) = (w :: 64 word)"
  by simp







lemma sample_next_Inr:
  assumes "sample_next P sampler machine parameters state = Inr (state', out)"
  shows "\<exists>accepted0 s. asarray (n_accepted state) = Inr accepted0
         \<and> sweep_loop P sampler machine parameters state (nat (n_sweeps sampler))
            \<lparr>s_key = random_split P (rng state) 2 1,
             s_\<sigma> = \<sigma> state,
             s_log_prob = log_prob_of sampler machine parameters (\<sigma> state),
             s_accepted = accepted0\<rparr> = Inr s
         \<and> state' = state\<lparr>rng := random_split P (rng state) 2 0, \<sigma> := s_\<sigma> s,
                            n_accepted := JaxInt (s_accepted s),
                            n_samples := n_samples state + n_sweeps sampler * n_chains sampler\<rparr>
         \<and> out = s_\<sigma> s"
  using assms by (auto simp: sample_next_def Let_def split: sum.splits)


text \<open>
  C10. A call of \<open>sample_next\<close> that returns leaves the rule's state as it was: the new
  state is the old one with the configurations, the key and the two counters replaced.
\<close>

theorem sample_next_frame:
  assumes "sample_next P sampler machine parameters state = Inr (state', out)"
  shows "rule_state state' = rule_state state
       \<and> state' = state\<lparr>rng := rng state', \<sigma> := \<sigma> state',
                          n_accepted := n_accepted state', n_samples := n_samples state'\<rparr>"
  using sample_next_Inr [OF assms] by auto

subsection \<open>Initial state and acceptance rate\<close>

text \<open>
  C7. For dimensions that are not negative, \<open>init_state\<close> returns the state whose
  batch is \<open>n_chains\<close> rows of \<open>hilbert_size\<close> zeros, whose key is the first child of
  the split of the given key, whose rule state is what the rule's \<open>init_state\<close> returns
  on the second child, and whose two counters are \<open>0\<close>.
\<close>

theorem init_state_correct:
  assumes "0 \<le> n_chains sampler" and "0 \<le> hilbert_size sampler"
  shows "init_state P sampler machine params key =
     Inr \<lparr>\<sigma> = replicate (nat (n_chains sampler)) (replicate (nat (hilbert_size sampler)) 0),
          rng = random_split P key 2 0,
          rule_state = rule_init_state (rule sampler) (Sampler.truncate sampler) machine params
                         (random_split P key 2 1),
          n_samples = 0, n_accepted = PyInt 0\<rparr>"
  using assms by (simp add: init_state_def zeros_def Let_def)

text \<open>
  C8, as amended. \<open>init_state\<close> has no check of its own: it fails when \<open>n_chains\<close> or
  \<open>hilbert_size\<close> is negative, with the error of the array constructor, and returns a
  state whenever neither is negative, zero included; the batch then has \<open>n_chains\<close> rows
  of \<open>hilbert_size\<close> entries, so none when one of them is \<open>0\<close>.
\<close>

theorem init_state_fails_iff:
  "(n_chains sampler < 0 \<or> hilbert_size sampler < 0
      \<longrightarrow> init_state P sampler machine params key = Inl ShapeError)
   \<and> (0 \<le> n_chains sampler \<and> 0 \<le> hilbert_size sampler
      \<longrightarrow> (\<exists>st. init_state P sampler machine params key = Inr st
                \<and> length (\<sigma> st) = nat (n_chains sampler)
                \<and> (\<forall>row\<in>set (\<sigma> st). length row = nat (hilbert_size sampler))))"
  by (auto simp: init_state_def zeros_def Let_def)

lemma repr_acceptance_rate_positive:
  assumes "0 < n_samples self"
  shows "repr_acceptance_rate self
           = Inr (Finite (real_of_int (counter_val (n_accepted self))
                            / real_of_int (n_samples self) * 100))"
  using assms by (cases "n_accepted self") (simp_all add: repr_acceptance_rate_def jax_true_divide_def)

lemma repr_acceptance_rate_jax_zero:
  assumes "n_accepted self = JaxInt 0" and "n_samples self = 0"
  shows "repr_acceptance_rate self = Inr NaN"
  using assms by (simp add: repr_acceptance_rate_def jax_true_divide_def)

text \<open>
  C9. The claim asks that a state with no attempted move be reported with a rate that is
  not a number, without an error. The code misses it on the state that \<open>init_state\<close>
  returns: both counters are the Python integer \<open>0\<close> there, and the division raises.
\<close>

theorem repr_after_init_state:
  assumes "init_state P sampler machine params key = Inr st"
  shows "n_samples st = 0 \<and> n_accepted st = PyInt 0
       \<and> repr_acceptance_rate st = Inl ZeroDivisionError"
  using assms
  by (auto simp: init_state_def Let_def repr_acceptance_rate_def split: sum.splits)

subsection \<open>The Exchange rule\<close>

lemma getitem_nat: "0 \<le> i \<Longrightarrow> i < int (length xs) \<Longrightarrow> getitem xs i = xs ! nat i"
  by (simp add: getitem_def normalize_index_def min_def max_def)

lemma index_update_nat:
  "0 \<le> i \<Longrightarrow> i < int (length xs) \<Longrightarrow> index_update xs i v = xs[nat i := v]"
  by (simp add: index_update_def normalize_index_def)

lemma getitem_mem:
  assumes "xs \<noteq> []"
  shows "getitem xs i \<in> set xs"
proof -
  from assms have "0 < length xs" by simp
  then have "nat (min (max (normalize_index (length xs) i) 0) (int (length xs) - 1)) < length xs"
    by arith
  then show ?thesis unfolding getitem_def by (rule nth_mem)
qed

lemma scalar_update_fun_swap:
  assumes "clusters_within (clusters r) (length row)"
  shows "\<exists>si sj. getitem (clusters r) cluster = (int si, int sj)
           \<and> si < length row \<and> sj < length row
           \<and> scalar_update_fun r row cluster = row[si := row ! sj, sj := row ! si]"
proof -
  obtain a b where ab: "getitem (clusters r) cluster = (a, b)" by (cases "getitem (clusters r) cluster")
  from assms have ne: "clusters r \<noteq> []" by (simp add: clusters_within_def)
  from getitem_mem [OF ne, of cluster] ab have "(a, b) \<in> set (clusters r)" by simp
  with assms have rng: "0 \<le> a" "a < int (length row)" "0 \<le> b" "b < int (length row)"
    by (auto simp: clusters_within_def list_all_iff)
  have "scalar_update_fun r row cluster = row[nat a := row ! nat b, nat b := row ! nat a]"
    using rng by (simp add: scalar_update_fun_def ab Let_def getitem_nat index_update_nat)
  with rng ab have "getitem (clusters r) cluster = (int (nat a), int (nat b))
      \<and> nat a < length row \<and> nat b < length row
      \<and> scalar_update_fun r row cluster = row[nat a := row ! nat b, nat b := row ! nat a]"
    by (simp add: nat_less_iff)
  then show ?thesis by blast
qed

lemma scalar_update_fun_mset:
  assumes "clusters_within (clusters r) (length row)"
  shows "mset (scalar_update_fun r row cluster) = mset row"
proof -
  from scalar_update_fun_swap [OF assms, of cluster] obtain si sj where
    "si < length row" "sj < length row"
    "scalar_update_fun r row cluster = row[si := row ! sj, sj := row ! si]" by blast
  then show ?thesis by (simp add: mset_swap)
qed

lemma ExchangeRule_transition_nth:
  "c < length \<sigma>c \<Longrightarrow>
   fst (ExchangeRule_transition P r key \<sigma>c) ! c =
     scalar_update_fun r (\<sigma>c ! c)
       (random_randint P key (length \<sigma>c) 0 (int (length (clusters r))) c)"
  by (simp add: ExchangeRule_transition_def randint_def Let_def)

lemma ExchangeRule_transition_length:
  "length (fst (ExchangeRule_transition P r key \<sigma>c)) = length \<sigma>c
   \<and> snd (ExchangeRule_transition P r key \<sigma>c) = None"
  by (simp add: ExchangeRule_transition_def randint_def Let_def)

lemma mset_sum_list_eq:
  fixes xs :: "'c::comm_monoid_add list"
  shows "mset xs = mset ys \<Longrightarrow> sum_list xs = sum_list ys"
  by (metis sum_mset_sum_list)

lemma same_values_rows:
  assumes "same_values xs ys" and "\<forall>row\<in>set ys. length row = n"
  shows "\<forall>row\<in>set xs. length row = n"
proof
  fix row assume "row \<in> set xs"
  then obtain c where c: "c < length xs" "row = xs ! c" by (auto simp: in_set_conv_nth)
  from assms(1) c have "mset row = mset (ys ! c)" "c < length ys"
    by (auto simp: same_values_def list_all2_conv_all_nth)
  with assms(2) show "length row = n"
    by (metis mset_eq_length nth_mem)
qed

lemma same_values_trans: "same_values xs ys \<Longrightarrow> same_values ys zs \<Longrightarrow> same_values xs zs"
  unfolding same_values_def by (auto simp: list_all2_conv_all_nth)

lemma same_values_refl: "same_values xs xs"
  unfolding same_values_def by (simp add: list_all2_conv_all_nth)

lemma sweep_body_exchange:
  assumes r: "rule sampler = ExchangeRule_methods P r"
    and tab: "clusters_within (clusters r) n"
    and rows: "\<forall>row\<in>set (s_\<sigma> s). length row = n"
    and body: "sweep_body P sampler machine parameters state s = Inr s'"
  shows "same_values (s_\<sigma> s') (s_\<sigma> s)"
proof -
  let ?key1 = "random_split P (s_key s) 3 1"
  from sweep_body_Inr [OF body] obtain \<sigma>p plp flags where
    p: "propose P sampler machine parameters state s = Inr (\<sigma>p, plp, flags)"
    and len: "length \<sigma>p = length flags" "length (s_\<sigma> s) = length flags"
      "length (s_\<sigma> s') = length flags"
    and sel: "\<forall>i<length flags. s_\<sigma> s' ! i = (if flags ! i then \<sigma>p ! i else s_\<sigma> s ! i)"
    by blast
  from propose_Inr [OF p] r have \<sigma>p: "\<sigma>p = fst (ExchangeRule_transition P r ?key1 (s_\<sigma> s))"
    by (auto simp: ExchangeRule_methods_def split: if_splits)
  have "mset (s_\<sigma> s' ! c) = mset (s_\<sigma> s ! c)" if c: "c < length flags" for c
  proof -
    from c len have c': "c < length (s_\<sigma> s)" by simp
    with rows have "length (s_\<sigma> s ! c) = n" by simp
    with tab have "mset (\<sigma>p ! c) = mset (s_\<sigma> s ! c)"
      by (simp add: \<sigma>p ExchangeRule_transition_nth [OF c'] scalar_update_fun_mset)
    with sel c show ?thesis by simp
  qed
  with len show ?thesis
    by (simp add: same_values_def list_all2_conv_all_nth)
qed

lemma sweep_loop_exchange:
  assumes r: "rule sampler = ExchangeRule_methods P r"
    and tab: "clusters_within (clusters r) n"
  shows "\<forall>row\<in>set (s_\<sigma> s). length row = n \<Longrightarrow>
    sweep_loop P sampler machine parameters state k s = Inr s' \<Longrightarrow>
    same_values (s_\<sigma> s') (s_\<sigma> s)"
proof (induction k arbitrary: s)
  case 0
  then show ?case by (simp add: same_values_refl)
next
  case (Suc k)
  from Suc.prems(2) obtain s1 where
    b: "sweep_body P sampler machine parameters state s = Inr s1"
    and l: "sweep_loop P sampler machine parameters state k s1 = Inr s'"
    by (auto split: sum.splits)
  from sweep_body_exchange [OF r tab Suc.prems(1) b] have 1: "same_values (s_\<sigma> s1) (s_\<sigma> s)" .
  from same_values_rows [OF 1 Suc.prems(1)] have "\<forall>row\<in>set (s_\<sigma> s1). length row = n" .
  from Suc.IH [OF this l] 1 show ?case by (rule same_values_trans)
qed

lemma ExchangeRule_transition_swap:
  assumes tab: "clusters_within (clusters r) n"
    and rows: "\<forall>row\<in>set \<sigma>c. length row = n"
    and c: "c < length \<sigma>c"
  shows "\<exists>si sj.
       getitem (clusters r) (random_randint P key (length \<sigma>c) 0 (int (length (clusters r))) c)
         = (int si, int sj)
     \<and> si < n \<and> sj < n
     \<and> fst (ExchangeRule_transition P r key \<sigma>c) ! c ! si = \<sigma>c ! c ! sj
     \<and> fst (ExchangeRule_transition P r key \<sigma>c) ! c ! sj = \<sigma>c ! c ! si
     \<and> (\<forall>k<n. k \<noteq> si \<and> k \<noteq> sj \<longrightarrow>
            fst (ExchangeRule_transition P r key \<sigma>c) ! c ! k = \<sigma>c ! c ! k)
     \<and> length (fst (ExchangeRule_transition P r key \<sigma>c) ! c) = n
     \<and> mset (fst (ExchangeRule_transition P r key \<sigma>c) ! c) = mset (\<sigma>c ! c)"
proof -
  let ?id = "random_randint P key (length \<sigma>c) 0 (int (length (clusters r))) c"
  let ?row = "\<sigma>c ! c"
  from rows c have n: "length ?row = n" by simp
  from tab n have tab': "clusters_within (clusters r) (length ?row)" by simp
  from scalar_update_fun_swap [OF tab', of ?id] obtain si sj where
    g: "getitem (clusters r) ?id = (int si, int sj)"
    and lt: "si < length ?row" "sj < length ?row"
    and sw: "scalar_update_fun r ?row ?id = ?row[si := ?row ! sj, sj := ?row ! si]"
    by blast
  have eq: "fst (ExchangeRule_transition P r key \<sigma>c) ! c = ?row[si := ?row ! sj, sj := ?row ! si]"
    by (simp add: ExchangeRule_transition_nth [OF c] sw)
  have "?row[si := ?row ! sj, sj := ?row ! si] ! si = ?row ! sj"
    using lt by (cases "si = sj") simp_all
  moreover have "?row[si := ?row ! sj, sj := ?row ! si] ! sj = ?row ! si"
    using lt by simp
  moreover have "\<forall>k<n. k \<noteq> si \<and> k \<noteq> sj \<longrightarrow> ?row[si := ?row ! sj, sj := ?row ! si] ! k = ?row ! k"
    by simp
  moreover have "mset (?row[si := ?row ! sj, sj := ?row ! si]) = mset ?row"
    using lt by (simp add: mset_swap)
  ultimately show ?thesis
    using g lt n unfolding eq by auto
qed

lemma ExchangeRule_transition_chains:
  fixes \<sigma>c :: "'c::comm_monoid_add batch"
  assumes tab: "clusters_within (clusters r) n"
    and rows: "\<forall>row\<in>set \<sigma>c. length row = n"
  shows "\<forall>c<length \<sigma>c. \<exists>si sj.
       getitem (clusters r) (random_randint P key (length \<sigma>c) 0 (int (length (clusters r))) c)
         = (int si, int sj)
     \<and> si < n \<and> sj < n
     \<and> fst (ExchangeRule_transition P r key \<sigma>c) ! c ! si = \<sigma>c ! c ! sj
     \<and> fst (ExchangeRule_transition P r key \<sigma>c) ! c ! sj = \<sigma>c ! c ! si
     \<and> (\<forall>k<n. k \<noteq> si \<and> k \<noteq> sj \<longrightarrow>
            fst (ExchangeRule_transition P r key \<sigma>c) ! c ! k = \<sigma>c ! c ! k)
     \<and> length (fst (ExchangeRule_transition P r key \<sigma>c) ! c) = n
     \<and> mset (fst (ExchangeRule_transition P r key \<sigma>c) ! c) = mset (\<sigma>c ! c)"
proof (intro allI impI)
  fix c assume c: "c < length \<sigma>c"
  show "\<exists>si sj.
       getitem (clusters r) (random_randint P key (length \<sigma>c) 0 (int (length (clusters r))) c)
         = (int si, int sj)
     \<and> si < n \<and> sj < n
     \<and> fst (ExchangeRule_transition P r key \<sigma>c) ! c ! si = \<sigma>c ! c ! sj
     \<and> fst (ExchangeRule_transition P r key \<sigma>c) ! c ! sj = \<sigma>c ! c ! si
     \<and> (\<forall>k<n. k \<noteq> si \<and> k \<noteq> sj \<longrightarrow>
            fst (ExchangeRule_transition P r key \<sigma>c) ! c ! k = \<sigma>c ! c ! k)
     \<and> length (fst (ExchangeRule_transition P r key \<sigma>c) ! c) = n
     \<and> mset (fst (ExchangeRule_transition P r key \<sigma>c) ! c) = mset (\<sigma>c ! c)"
    by (rule ExchangeRule_transition_swap [OF tab rows c])
qed

lemma ExchangeRule_transition_sums:
  fixes \<sigma>c :: "'c::comm_monoid_add batch"
  assumes tab: "clusters_within (clusters r) n"
    and rows: "\<forall>row\<in>set \<sigma>c. length row = n"
  shows "\<forall>c<length \<sigma>c.
     sum_list (fst (ExchangeRule_transition P r key \<sigma>c) ! c) = sum_list (\<sigma>c ! c)"
proof (intro allI impI)
  fix c assume c: "c < length \<sigma>c"
  from ExchangeRule_transition_swap [OF tab rows c, of P key]
  obtain si sj where "getitem (clusters r)
        (random_randint P key (length \<sigma>c) 0 (int (length (clusters r))) c) = (int si, int sj)
     \<and> si < n \<and> sj < n
     \<and> fst (ExchangeRule_transition P r key \<sigma>c) ! c ! si = \<sigma>c ! c ! sj
     \<and> fst (ExchangeRule_transition P r key \<sigma>c) ! c ! sj = \<sigma>c ! c ! si
     \<and> (\<forall>k<n. k \<noteq> si \<and> k \<noteq> sj \<longrightarrow>
            fst (ExchangeRule_transition P r key \<sigma>c) ! c ! k = \<sigma>c ! c ! k)
     \<and> length (fst (ExchangeRule_transition P r key \<sigma>c) ! c) = n
     \<and> mset (fst (ExchangeRule_transition P r key \<sigma>c) ! c) = mset (\<sigma>c ! c)"
    by (elim exE)
  then have "mset (fst (ExchangeRule_transition P r key \<sigma>c) ! c) = mset (\<sigma>c ! c)" by simp
  then show "sum_list (fst (ExchangeRule_transition P r key \<sigma>c) ! c) = sum_list (\<sigma>c ! c)"
    by (rule mset_sum_list_eq)
qed

lemma sample_next_exchange:
  fixes sampler :: "('c::comm_monoid_add, 'k, 'rs option, 'p) MetropolisSampler"
  assumes tab: "clusters_within (clusters r) n"
    and r: "rule sampler = ExchangeRule_methods P r"
    and rows: "\<forall>row\<in>set (\<sigma> state). length row = n"
    and sn: "sample_next P sampler machine parameters state = Inr (state', out)"
  shows "length (\<sigma> state') = length (\<sigma> state)
       \<and> (\<forall>c<length (\<sigma> state). mset (\<sigma> state' ! c) = mset (\<sigma> state ! c))
       \<and> (\<forall>c<length (\<sigma> state). sum_list (\<sigma> state' ! c) = sum_list (\<sigma> state ! c))"
proof -
  from sample_next_Inr [OF sn] obtain accepted0 s where
    l: "sweep_loop P sampler machine parameters state (nat (n_sweeps sampler))
            \<lparr>s_key = random_split P (rng state) 2 1,
             s_\<sigma> = \<sigma> state,
             s_log_prob = log_prob_of sampler machine parameters (\<sigma> state),
             s_accepted = accepted0\<rparr> = Inr s"
    and st: "state' = state\<lparr>rng := random_split P (rng state) 2 0, \<sigma> := s_\<sigma> s,
                            n_accepted := JaxInt (s_accepted s),
                            n_samples := n_samples state + n_sweeps sampler * n_chains sampler\<rparr>"
    by blast
  from st have \<sigma>': "\<sigma> state' = s_\<sigma> s" by simp
  from rows have rows0: "\<forall>row\<in>set (s_\<sigma> \<lparr>s_key = random_split P (rng state) 2 1,
             s_\<sigma> = \<sigma> state,
             s_log_prob = log_prob_of sampler machine parameters (\<sigma> state),
             s_accepted = accepted0\<rparr>). length row = n" by simp
  from sweep_loop_exchange [OF r tab rows0 l] have "same_values (s_\<sigma> s) (\<sigma> state)" by simp
  then have sv: "list_all2 (\<lambda>a b. mset a = mset b) (\<sigma> state') (\<sigma> state)"
    by (simp add: same_values_def \<sigma>')
  from sv have len: "length (\<sigma> state') = length (\<sigma> state)" by (rule list_all2_lengthD)
  from sv have ms: "\<forall>c<length (\<sigma> state). mset (\<sigma> state' ! c) = mset (\<sigma> state ! c)"
    by (simp add: list_all2_conv_all_nth)
  have "\<forall>c<length (\<sigma> state). sum_list (\<sigma> state' ! c) = sum_list (\<sigma> state ! c)"
  proof (intro allI impI)
    fix c assume "c < length (\<sigma> state)"
    with ms have "mset (\<sigma> state' ! c) = mset (\<sigma> state ! c)" by simp
    then show "sum_list (\<sigma> state' ! c) = sum_list (\<sigma> state ! c)" by (rule mset_sum_list_eq)
  qed
  with len ms show ?thesis by simp
qed

text \<open>
  C4. With a cluster table whose entries are site indices of the configurations, the
  transition of the Exchange rule returns no correction and, for every chain, swaps the
  values at the two sites of the entry chosen for that chain and leaves every other site
  as it was; the values of a chain, with their multiplicities, and their sum are those
  of the input. Hence a call of \<open>sample_next\<close> with the Exchange rule, whatever its
  number of sweeps, returns a batch whose chains hold the same values and the same sum
  as before the call.
\<close>

theorem exchange_conservation:
  fixes \<sigma>c :: "'c::comm_monoid_add batch"
    and sampler :: "('c, 'k, 'rs option, 'p) MetropolisSampler"
  assumes tab: "clusters_within (clusters r) n"
  shows "((\<forall>row\<in>set \<sigma>c. length row = n) \<longrightarrow>
            snd (ExchangeRule_transition P r key \<sigma>c) = None
          \<and> length (fst (ExchangeRule_transition P r key \<sigma>c)) = length \<sigma>c
          \<and> (\<forall>c<length \<sigma>c. \<exists>si sj.
                getitem (clusters r)
                  (random_randint P key (length \<sigma>c) 0 (int (length (clusters r))) c)
                  = (int si, int sj)
              \<and> si < n \<and> sj < n
              \<and> fst (ExchangeRule_transition P r key \<sigma>c) ! c ! si = \<sigma>c ! c ! sj
              \<and> fst (ExchangeRule_transition P r key \<sigma>c) ! c ! sj = \<sigma>c ! c ! si
              \<and> (\<forall>k<n. k \<noteq> si \<and> k \<noteq> sj \<longrightarrow>
                     fst (ExchangeRule_transition P r key \<sigma>c) ! c ! k = \<sigma>c ! c ! k)
              \<and> length (fst (ExchangeRule_transition P r key \<sigma>c) ! c) = n
              \<and> mset (fst (ExchangeRule_transition P r key \<sigma>c) ! c) = mset (\<sigma>c ! c))
          \<and> (\<forall>c<length \<sigma>c.
                sum_list (fst (ExchangeRule_transition P r key \<sigma>c) ! c) = sum_list (\<sigma>c ! c)))
       \<and> (rule sampler = ExchangeRule_methods P r
            \<and> (\<forall>row\<in>set (\<sigma> state). length row = n)
            \<and> sample_next P sampler machine parameters state = Inr (state', out) \<longrightarrow>
              length (\<sigma> state') = length (\<sigma> state)
            \<and> (\<forall>c<length (\<sigma> state). mset (\<sigma> state' ! c) = mset (\<sigma> state ! c))
            \<and> (\<forall>c<length (\<sigma> state). sum_list (\<sigma> state' ! c) = sum_list (\<sigma> state ! c)))"
proof (rule conjI)
  show "(\<forall>row\<in>set \<sigma>c. length row = n) \<longrightarrow>
            snd (ExchangeRule_transition P r key \<sigma>c) = None
          \<and> length (fst (ExchangeRule_transition P r key \<sigma>c)) = length \<sigma>c
          \<and> (\<forall>c<length \<sigma>c. \<exists>si sj.
                getitem (clusters r)
                  (random_randint P key (length \<sigma>c) 0 (int (length (clusters r))) c)
                  = (int si, int sj)
              \<and> si < n \<and> sj < n
              \<and> fst (ExchangeRule_transition P r key \<sigma>c) ! c ! si = \<sigma>c ! c ! sj
              \<and> fst (ExchangeRule_transition P r key \<sigma>c) ! c ! sj = \<sigma>c ! c ! si
              \<and> (\<forall>k<n. k \<noteq> si \<and> k \<noteq> sj \<longrightarrow>
                     fst (ExchangeRule_transition P r key \<sigma>c) ! c ! k = \<sigma>c ! c ! k)
              \<and> length (fst (ExchangeRule_transition P r key \<sigma>c) ! c) = n
              \<and> mset (fst (ExchangeRule_transition P r key \<sigma>c) ! c) = mset (\<sigma>c ! c))
          \<and> (\<forall>c<length \<sigma>c.
                sum_list (fst (ExchangeRule_transition P r key \<sigma>c) ! c) = sum_list (\<sigma>c ! c))"
  proof (rule impI)
    assume rows: "\<forall>row\<in>set \<sigma>c. length row = n"
    from ExchangeRule_transition_length [of P r key \<sigma>c]
    have 1: "snd (ExchangeRule_transition P r key \<sigma>c) = None"
      and 2: "length (fst (ExchangeRule_transition P r key \<sigma>c)) = length \<sigma>c"
      by simp_all
    note 3 = ExchangeRule_transition_chains [OF tab rows, of P key]
    note 4 = ExchangeRule_transition_sums [OF tab rows, of P key]
    show "snd (ExchangeRule_transition P r key \<sigma>c) = None
          \<and> length (fst (ExchangeRule_transition P r key \<sigma>c)) = length \<sigma>c
          \<and> (\<forall>c<length \<sigma>c. \<exists>si sj.
                getitem (clusters r)
                  (random_randint P key (length \<sigma>c) 0 (int (length (clusters r))) c)
                  = (int si, int sj)
              \<and> si < n \<and> sj < n
              \<and> fst (ExchangeRule_transition P r key \<sigma>c) ! c ! si = \<sigma>c ! c ! sj
              \<and> fst (ExchangeRule_transition P r key \<sigma>c) ! c ! sj = \<sigma>c ! c ! si
              \<and> (\<forall>k<n. k \<noteq> si \<and> k \<noteq> sj \<longrightarrow>
                     fst (ExchangeRule_transition P r key \<sigma>c) ! c ! k = \<sigma>c ! c ! k)
              \<and> length (fst (ExchangeRule_transition P r key \<sigma>c) ! c) = n
              \<and> mset (fst (ExchangeRule_transition P r key \<sigma>c) ! c) = mset (\<sigma>c ! c))
          \<and> (\<forall>c<length \<sigma>c.
                sum_list (fst (ExchangeRule_transition P r key \<sigma>c) ! c) = sum_list (\<sigma>c ! c))"
      by (rule conjI [OF 1 conjI [OF 2 conjI [OF 3 4]]])
  qed
next
  show "rule sampler = ExchangeRule_methods P r
            \<and> (\<forall>row\<in>set (\<sigma> state). length row = n)
            \<and> sample_next P sampler machine parameters state = Inr (state', out) \<longrightarrow>
              length (\<sigma> state') = length (\<sigma> state)
            \<and> (\<forall>c<length (\<sigma> state). mset (\<sigma> state' ! c) = mset (\<sigma> state ! c))
            \<and> (\<forall>c<length (\<sigma> state). sum_list (\<sigma> state' ! c) = sum_list (\<sigma> state ! c))"
  proof (rule impI)
    assume a: "rule sampler = ExchangeRule_methods P r
            \<and> (\<forall>row\<in>set (\<sigma> state). length row = n)
            \<and> sample_next P sampler machine parameters state = Inr (state', out)"
    from a have r: "rule sampler = ExchangeRule_methods P r" by (rule conjunct1)
    from a have rows: "\<forall>row\<in>set (\<sigma> state). length row = n" by (rule conjunct2 [THEN conjunct1])
    from a have sn: "sample_next P sampler machine parameters state = Inr (state', out)"
      by (rule conjunct2 [THEN conjunct2])
    show "length (\<sigma> state') = length (\<sigma> state)
            \<and> (\<forall>c<length (\<sigma> state). mset (\<sigma> state' ! c) = mset (\<sigma> state ! c))
            \<and> (\<forall>c<length (\<sigma> state). sum_list (\<sigma> state' ! c) = sum_list (\<sigma> state ! c))"
      by (rule sample_next_exchange [OF tab r rows sn])
  qed
qed

subsection \<open>The example sampler, evaluated\<close>

lemma upt_2: "[0 ..< 2] = [0, Suc 0]"
  by (simp add: upt_rec)

lemma ex_clusters_within: "clusters_within (clusters ex_rule) 4"
  by (simp add: clusters_within_def ex_rule_def)

lemma ex_transition_1:
  "ExchangeRule_transition ex_prng ex_rule 10 [[1, 1, - 1, - 1], [1, - 1, 1, - 1 :: int]]
     = ([[1, - 1, 1, - 1], [1, - 1, - 1, 1]], None)"
  by (simp add: ExchangeRule_transition_def randint_def ex_prng_def ex_rule_def upt_2
      scalar_update_fun_def getitem_def index_update_def normalize_index_def Let_def)

lemma ex_rule_transition:
  "rule_transition (rule ex_sampler) S ex_machine () st key \<sigma>c
     = Inr (ExchangeRule_transition ex_prng ex_rule key \<sigma>c)"
  by (simp add: ex_sampler_def ExchangeRule_methods_def ex_rule_def)

lemma ex_split_3: "random_split ex_prng k 3 i = k * 4 + i + 1"
  by (simp add: ex_prng_def)

lemma ex_uniform: "uniform ex_prng key 2 = Inr [1 / 2, 1 / 2]"
  by (simp add: uniform_def ex_prng_def upt_2)

lemma ex_log_prob: "log_prob_of ex_sampler ex_machine () [a, b] = [0, 0]"
  by (simp add: log_prob_of_def ex_machine_def)

lemma ex_do_accept: "do_accept_of [1 / 2, 1 / 2] [0, 0] [0, 0] None = Inr [True, True]"
  by (simp add: do_accept_of_def elementwise_def)

lemma ex_propose_1:
  "propose ex_prng ex_sampler ex_machine () st (ex_scope\<lparr>s_accepted := a\<rparr>)
     = Inr ([[1, - 1, 1, - 1], [1, - 1, - 1, 1]], [0, 0], [True, True])"
proof -
  have n: "n_chains ex_sampler = 2" by (simp add: ex_sampler_def)
  show ?thesis
    unfolding propose_def Let_def ex_rule_transition ex_split_3
    by (simp add: ex_scope_def ex_transition_1 ex_log_prob n ex_uniform ex_do_accept)
qed

lemma ex_sweep_body_1:
  "sweep_body ex_prng ex_sampler ex_machine () st (ex_scope\<lparr>s_accepted := a\<rparr>)
     = Inr \<lparr>s_key = 9, s_\<sigma> = [[1, - 1, 1, - 1], [1, - 1, - 1, 1]], s_log_prob = [0, 0],
            s_accepted = a + 2\<rparr>"
  unfolding sweep_body_def ex_propose_1
  by (simp add: ex_scope_def where_rows_def where_entries_def sum_flags_def ex_split_3)

lemma ex_transition_2:
  "ExchangeRule_transition ex_prng ex_rule 38 [[1, - 1, 1, - 1], [1, - 1, - 1, 1 :: int]]
     = ([[1, - 1, - 1, 1], [- 1, 1, - 1, 1]], None)"
  by (simp add: ExchangeRule_transition_def randint_def ex_prng_def ex_rule_def upt_2
      scalar_update_fun_def getitem_def index_update_def normalize_index_def Let_def)

lemma ex_propose_2:
  "propose ex_prng ex_sampler ex_machine () st
     \<lparr>s_key = 9, s_\<sigma> = [[1, - 1, 1, - 1], [1, - 1, - 1, 1]], s_log_prob = [0, 0],
      s_accepted = a\<rparr>
     = Inr ([[1, - 1, - 1, 1], [- 1, 1, - 1, 1]], [0, 0], [True, True])"
proof -
  have n: "n_chains ex_sampler = 2" by (simp add: ex_sampler_def)
  show ?thesis
    unfolding propose_def Let_def ex_rule_transition ex_split_3
    by (simp add: ex_transition_2 ex_log_prob n ex_uniform ex_do_accept)
qed

lemma ex_sweep_body_2:
  "sweep_body ex_prng ex_sampler ex_machine () st
     \<lparr>s_key = 9, s_\<sigma> = [[1, - 1, 1, - 1], [1, - 1, - 1, 1]], s_log_prob = [0, 0],
      s_accepted = a\<rparr>
     = Inr \<lparr>s_key = 37, s_\<sigma> = [[1, - 1, - 1, 1], [- 1, 1, - 1, 1]], s_log_prob = [0, 0],
            s_accepted = a + 2\<rparr>"
  unfolding sweep_body_def ex_propose_2
  by (simp add: where_rows_def where_entries_def sum_flags_def ex_split_3)

lemma ex_sweep_loop:
  "sweep_loop ex_prng ex_sampler ex_machine () st (Suc (Suc 0)) (ex_scope\<lparr>s_accepted := a\<rparr>)
     = Inr \<lparr>s_key = 37, s_\<sigma> = [[1, - 1, - 1, 1], [- 1, 1, - 1, 1]], s_log_prob = [0, 0],
            s_accepted = a + 4\<rparr>"
  by (simp add: ex_sweep_body_1 ex_sweep_body_2)




lemma ex_initial_scope:
  "\<sigma> st = [[1, 1, - 1, - 1], [1, - 1, 1, - 1]] \<Longrightarrow> rng st = 0 \<Longrightarrow>
   \<lparr>s_key = random_split ex_prng (rng st) 2 1,
    s_\<sigma> = \<sigma> st,
    s_log_prob = log_prob_of ex_sampler ex_machine () (\<sigma> st),
    s_accepted = a\<rparr> = ex_scope\<lparr>s_accepted := a\<rparr>"
  by (simp add: ex_scope_def ex_prng_def ex_log_prob)

lemma ex_sample_next:
  "sample_next ex_prng ex_sampler ex_machine () ex_state
     = Inr (ex_state', [[1, - 1, - 1, 1], [- 1, 1, - 1, 1]])"
proof -
  have n: "nat (n_sweeps ex_sampler) = Suc (Suc 0)" by (simp add: ex_sampler_def)
  have a: "asarray (n_accepted ex_state) = Inr 0" by (simp add: ex_state_def)
  have i: "\<lparr>s_key = random_split ex_prng (rng ex_state) 2 1,
    s_\<sigma> = \<sigma> ex_state,
    s_log_prob = log_prob_of ex_sampler ex_machine () (\<sigma> ex_state),
    s_accepted = 0\<rparr> = ex_scope\<lparr>s_accepted := 0\<rparr>"
    by (rule ex_initial_scope) (simp_all add: ex_state_def)
  show ?thesis
    unfolding sample_next_def Let_def a sum.case i n ex_sweep_loop
    by (simp add: ex_state_def ex_state'_def ex_sampler_def ex_prng_def)
qed





subsection \<open>Witnesses\<close>

text \<open>
  Each theorem above is applied to the example sampler. The first round with the machine
  \<open>ex_machine_b\<close> accepts chain \<open>0\<close> and rejects chain \<open>1\<close>, whose proposal has the
  log-probability \<open>ln (1/4)\<close> against the uniform variate \<open>1/2\<close>.
\<close>

lemma ex_log_prob_b:
  "log_prob_of ex_sampler ex_machine_b () [[1, - 1, 1, - 1], [1, - 1, - 1, 1]] = [0, ln (1 / 4)]"
  by (simp add: log_prob_of_def ex_machine_b_def ex_sampler_def)

lemma ex_do_accept_b:
  "do_accept_of [1 / 2, 1 / 2] [0, ln (1 / 4)] [0, 0] None = Inr [True, False]"
proof -
  have "exp (ln (1 / 4 :: real)) = 1 / 4" by (rule exp_ln) simp
  then show ?thesis
    by (simp add: do_accept_of_def elementwise_def del: ln_divide_pos)
qed

lemma ex_trans_hyp:
  "rule_transition (rule ex_sampler) (Sampler.truncate ex_sampler) ex_machine_b () ex_state
      (random_split ex_prng (s_key ex_scope) 3 1) (s_\<sigma> ex_scope)
     = Inr ([[1, - 1, 1, - 1], [1, - 1, - 1, 1]], None)"
proof -
  have ne: "clusters ex_rule \<noteq> []" by (simp add: ex_rule_def)
  show ?thesis
    by (simp add: ex_sampler_def ExchangeRule_methods_def ne ex_split_3 ex_scope_def ex_transition_1)
qed

lemma ex_propose_b:
  "propose ex_prng ex_sampler ex_machine_b () ex_state ex_scope
     = Inr ([[1, - 1, 1, - 1], [1, - 1, - 1, 1]], [0, ln (1 / 4)], [True, False])"
proof -
  have n: "n_chains ex_sampler = 2" by (simp add: ex_sampler_def)
  have s: "s_log_prob ex_scope = [0, 0]" by (simp add: ex_scope_def)
  show ?thesis
    unfolding propose_def Let_def ex_trans_hyp
    by (simp add: ex_log_prob_b n ex_split_3 ex_uniform s ex_do_accept_b del: ln_divide_pos)
qed

lemma ex_sweep_body_b:
  "sweep_body ex_prng ex_sampler ex_machine_b () ex_state ex_scope
     = Inr ex_scope_b"
  unfolding sweep_body_def ex_propose_b
  by (simp add: ex_scope_def ex_scope_b_def where_rows_def where_entries_def sum_flags_def ex_split_3)

lemma ex_chain_1: "(1::nat) < length (s_\<sigma> ex_scope)"
  by (simp add: ex_scope_def)

theorem sweep_body_accept_witness:
  "sweep_body ex_prng ex_sampler ex_machine_b () ex_state ex_scope = Inr ex_scope_b
   \<and> rule_transition (rule ex_sampler) (Sampler.truncate ex_sampler) ex_machine_b () ex_state
        (random_split ex_prng (s_key ex_scope) 3 1) (s_\<sigma> ex_scope)
       = Inr ([[1, - 1, 1, - 1], [1, - 1, - 1, 1]], None)
   \<and> (1::nat) < length (s_\<sigma> ex_scope)
   \<and> (let u = random_uniform ex_prng (random_split ex_prng (s_key ex_scope) 3 2)
                 (nat (n_chains ex_sampler)) 1;
           proposed = log_prob_of ex_sampler ex_machine_b ()
                        [[1, - 1, 1, - 1], [1, - 1, - 1, 1]] ! 1;
           current = s_log_prob ex_scope ! 1;
           accept = (u < exp (proposed - current
                       + (case None of None \<Rightarrow> 0 | Some c \<Rightarrow> c ! 1)))
       in s_\<sigma> ex_scope_b ! 1
            = (if accept then [[1, - 1, 1, - 1], [1, - 1, - 1, 1]] ! 1 else s_\<sigma> ex_scope ! 1)
        \<and> s_log_prob ex_scope_b ! 1 = (if accept then proposed else current))"
  by (rule conjI [OF ex_sweep_body_b conjI [OF ex_trans_hyp conjI [OF ex_chain_1
        sweep_body_accept [OF ex_sweep_body_b ex_trans_hyp ex_chain_1]]]])




theorem sample_next_frame_witness:
  "sample_next ex_prng ex_sampler ex_machine () ex_state
     = Inr (ex_state', [[1, - 1, - 1, 1], [- 1, 1, - 1, 1]])
   \<and> rule_state ex_state' = rule_state ex_state
   \<and> ex_state' = ex_state\<lparr>rng := 1, \<sigma> := [[1, - 1, - 1, 1], [- 1, 1, - 1, 1]],
                            n_accepted := JaxInt 4, n_samples := 4\<rparr>"
  using sample_next_frame [OF ex_sample_next]
  by (simp add: ex_sample_next ex_state'_def)

lemma ex_init_state: "init_state ex_prng ex_sampler ex_machine () 0 = Inr ex_state0"
  by (simp add: init_state_def zeros_def ex_sampler_def ex_prng_def ExchangeRule_methods_def
      MetropolisRule_init_state_def ex_state0_def Let_def numeral_eq_Suc)

theorem init_state_correct_witness:
  "0 \<le> n_chains ex_sampler \<and> 0 \<le> hilbert_size ex_sampler
   \<and> init_state ex_prng ex_sampler ex_machine () 0
       = Inr \<lparr>\<sigma> = [[0, 0, 0, 0], [0, 0, 0, 0]], rng = 1, rule_state = None,
              n_samples = 0, n_accepted = PyInt 0\<rparr>"
proof -
  have h: "0 \<le> n_chains ex_sampler" "0 \<le> hilbert_size ex_sampler"
    by (simp_all add: ex_sampler_def)
  from init_state_correct [OF h, of ex_prng ex_machine "()" 0] h show ?thesis
    by (simp add: ex_sampler_def ex_prng_def ExchangeRule_methods_def
        MetropolisRule_init_state_def numeral_eq_Suc)
qed

text \<open>
  C8 as stated fails: with \<open>n_chains = 0\<close> the array constructor returns the empty batch
  and \<open>init_state\<close> returns a state.
\<close>

theorem init_state_zero_chains_counterexample:
  "n_chains (ex_sampler\<lparr>n_chains := 0\<rparr>) \<le> 0
   \<and> init_state ex_prng (ex_sampler\<lparr>n_chains := 0\<rparr>) ex_machine () 0
       = Inr \<lparr>\<sigma> = [], rng = 1, rule_state = None, n_samples = 0, n_accepted = PyInt 0\<rparr>"
  by (simp add: init_state_def zeros_def ex_sampler_def ex_prng_def ExchangeRule_methods_def
      MetropolisRule_init_state_def Let_def)

theorem init_state_fails_iff_witness:
  "n_chains (ex_sampler\<lparr>n_chains := - 1\<rparr>) < 0
   \<and> init_state ex_prng (ex_sampler\<lparr>n_chains := - 1\<rparr>) ex_machine () 0 = Inl ShapeError
   \<and> 0 \<le> n_chains (ex_sampler\<lparr>n_chains := 0\<rparr>)
   \<and> 0 \<le> hilbert_size (ex_sampler\<lparr>n_chains := 0\<rparr>)
   \<and> (\<exists>st. init_state ex_prng (ex_sampler\<lparr>n_chains := 0\<rparr>) ex_machine () 0 = Inr st
            \<and> length (\<sigma> st) = 0)"
  using init_state_fails_iff [of "ex_sampler\<lparr>n_chains := - 1\<rparr>" ex_prng ex_machine "()" 0]
    init_state_fails_iff [of "ex_sampler\<lparr>n_chains := 0\<rparr>" ex_prng ex_machine "()" 0]
  by (auto simp: ex_sampler_def)

theorem repr_after_init_state_witness:
  "init_state ex_prng ex_sampler ex_machine () 0 = Inr ex_state0
   \<and> n_samples ex_state0 = 0 \<and> n_accepted ex_state0 = PyInt 0
   \<and> repr_acceptance_rate ex_state0 = Inl ZeroDivisionError"
  by (rule conjI [OF ex_init_state repr_after_init_state [OF ex_init_state]])

text \<open>
  On the state that \<open>sample_next\<close> returns the same method prints a rate: the four moves
  accepted of four are \<open>100\<close> percent.
\<close>

lemma ex_repr_after_sample_next: "repr_acceptance_rate ex_state' = Inr (Finite 100)"
proof -
  have "0 < n_samples ex_state'" by (simp add: ex_state'_def)
  from repr_acceptance_rate_positive [OF this] show ?thesis by (simp add: ex_state'_def)
qed

theorem exchange_conservation_witness:
  "clusters_within (clusters ex_rule) 4
   \<and> list_all (\<lambda>row. length row = 4) (\<sigma> ex_state)
   \<and> rule ex_sampler = ExchangeRule_methods ex_prng ex_rule
   \<and> sample_next ex_prng ex_sampler ex_machine () ex_state
       = Inr (ex_state', [[1, - 1, - 1, 1], [- 1, 1, - 1, 1]])
   \<and> snd (ExchangeRule_transition ex_prng ex_rule 10 (\<sigma> ex_state)) = None
   \<and> sum_list (fst (ExchangeRule_transition ex_prng ex_rule 10 (\<sigma> ex_state)) ! 1)
       = sum_list (\<sigma> ex_state ! 1)
   \<and> mset (\<sigma> ex_state' ! 1) = mset (\<sigma> ex_state ! 1)
   \<and> sum_list (\<sigma> ex_state' ! 1) = sum_list (\<sigma> ex_state ! 1)"
proof -
  have rows: "\<forall>row\<in>set (\<sigma> ex_state). length row = 4" by (simp add: ex_state_def)
  have rows': "list_all (\<lambda>row. length row = 4) (\<sigma> ex_state)" by (simp add: ex_state_def)
  have r: "rule ex_sampler = ExchangeRule_methods ex_prng ex_rule" by (simp add: ex_sampler_def)
  have l: "1 < length (\<sigma> ex_state)" by (simp add: ex_state_def)
  note c = exchange_conservation [OF ex_clusters_within,
      where \<sigma>c = "\<sigma> ex_state" and P = ex_prng and key = 10 and sampler = ex_sampler
        and state = ex_state and machine = ex_machine and parameters = "()"
        and state' = ex_state' and out = "[[1, - 1, - 1, 1], [- 1, 1, - 1, 1]]"]
  note p1 = c [THEN conjunct1, THEN mp, OF rows]
  note p2 = c [THEN conjunct2, THEN mp, OF conjI [OF r conjI [OF rows ex_sample_next]]]
  note a1 = p1 [THEN conjunct1]
  note a2 = p1 [THEN conjunct2, THEN conjunct2, THEN conjunct2, rule_format, OF l]
  note b1 = p2 [THEN conjunct2, THEN conjunct1, rule_format, OF l]
  note b2 = p2 [THEN conjunct2, THEN conjunct2, rule_format, OF l]
  show ?thesis
    by (rule conjI [OF ex_clusters_within conjI [OF rows' conjI [OF r conjI [OF ex_sample_next
          conjI [OF a1 conjI [OF a2 conjI [OF b1 b2]]]]]]])
qed

text \<open>
  Why the table is required to hold site indices: with an entry that names a site the
  configuration does not have, the read is clamped and the second update is dropped, and
  the values are not those of the input.
\<close>

lemma scalar_update_fun_outside:
  "scalar_update_fun \<lparr>clusters = [(0, 5)]\<rparr> [1, - 1 :: int] 0 = [- 1, - 1]"
  by (simp add: scalar_update_fun_def getitem_def index_update_def normalize_index_def Let_def)

end
